theory Spec2Isabelle
  imports Complex_Main "HOL-Library.Word" "HOL-Library.Sublist"
begin

section \<open>Strings\<close>

text \<open>
  A JavaScript string is a sequence of UTF-16 code units. \<open>js\<close> reads an ASCII literal
  of the source as such a sequence.
\<close>

type_synonym jsstring = "16 word list"

definition js :: "string \<Rightarrow> jsstring" where
  "js s = map (\<lambda>c. of_nat (of_char c)) s"

text \<open>
  \<open>String.prototype.toLowerCase\<close>, code unit by code unit. Below 256 (Basic Latin and
  the Latin-1 Supplement) \<open>A\<close>..\<open>Z\<close> and U+00C0..U+00DE without the multiplication sign
  U+00D7 move up by 32. From 256 on, the two code units whose lower case has a Basic
  Latin letter are mapped as JavaScript maps them: the Kelvin sign U+212A to \<open>k\<close>, and
  U+0130 to \<open>i\<close> followed by U+0307. Every other code unit is kept; for the code units
  from 256 on that JavaScript changes, this model differs from it, in code units that
  are outside Basic Latin before and after, so outside every pattern of the catalogues.
\<close>

definition lowerUnit :: "16 word \<Rightarrow> jsstring" where
  "lowerUnit u =
     (if (0x41 \<le> u \<and> u \<le> 0x5A) \<or> (0xC0 \<le> u \<and> u \<le> 0xDE \<and> u \<noteq> 0xD7)
      then [u + 0x20]
      else if u = 0x212A then [0x6B]
      else if u = 0x0130 then [0x69, 0x0307]
      else [u])"

definition toLowerCase :: "jsstring \<Rightarrow> jsstring" where
  "toLowerCase t = concat (map lowerUnit t)"

text \<open>
  \<open>String.prototype.includes\<close>: the pattern starts at some position of the text. The
  empty pattern is found in every text.
\<close>

fun includes_js :: "jsstring \<Rightarrow> jsstring \<Rightarrow> bool" where
  "includes_js [] p = (p = [])"
| "includes_js (c # cs) p = (prefix p (c # cs) \<or> includes_js cs p)"

text \<open>\<open>String.prototype.slice(0, n)\<close> for a non-negative \<open>n\<close>: the first \<open>n\<close> code units.\<close>

definition slice0 :: "jsstring \<Rightarrow> nat \<Rightarrow> jsstring" where
  "slice0 t n = take n t"

section \<open>Software detection\<close>

record signature =
  name :: jsstring
  patterns :: "jsstring list"

definition softwarePatterns :: "signature list" where
  "softwarePatterns =
    [\<lparr>name = js ''Adobe Premiere Pro'',
      patterns = map js [''premiere'', ''timeline'', ''lumetri'', ''essential graphics'', ''sequence'']\<rparr>,
     \<lparr>name = js ''DaVinci Resolve'',
      patterns = map js [''davinci'', ''resolve'', ''color'', ''fusion'', ''fairlight'', ''deliver'']\<rparr>,
     \<lparr>name = js ''Adobe Photoshop'',
      patterns = map js [''photoshop'', ''layers'', ''brush'', ''filter'', ''adjustment'']\<rparr>,
     \<lparr>name = js ''Adobe After Effects'',
      patterns = map js [''after effects'', ''composition'', ''timeline'', ''effects'', ''precomp'']\<rparr>,
     \<lparr>name = js ''Adobe Illustrator'',
      patterns = map js [''illustrator'', ''artboard'', ''pen tool'', ''pathfinder'', ''stroke'']\<rparr>,
     \<lparr>name = js ''Final Cut Pro'',
      patterns = map js [''final cut'', ''event'', ''project'', ''blade'', ''magnetic timeline'']\<rparr>,
     \<lparr>name = js ''Adobe Lightroom'',
      patterns = map js [''lightroom'', ''develop'', ''library'', ''histogram'', ''tone curve'']\<rparr>,
     \<lparr>name = js ''Logic Pro'',
      patterns = map js [''logic pro'', ''track area'', ''mixer'', ''library'', ''score editor'']\<rparr>]"

text \<open>
  The result of detection, \<open>{ software: string; confidence: number }\<close>. The confidence
  is a quotient of two small naturals; it is kept as a rational. The source computes it
  in double precision, where the quotients \<open>k / 5\<close> and \<open>k / 6\<close> that occur are rounded
  to nearest: equal rationals give the same double and different ones differ by at least
  \<open>1 / 30\<close>, so every comparison of the source has the outcome it has on the rationals.
\<close>

record detection =
  software :: jsstring
  confidence :: rat

text \<open>The inner loop: \<open>matches\<close> counts the patterns found in the lower-cased text.\<close>

definition countMatches :: "jsstring \<Rightarrow> jsstring list \<Rightarrow> nat" where
  "countMatches lowerText ps = fold (\<lambda>pattern matches. if includes_js lowerText pattern then matches + 1 else matches) ps 0"

text \<open>One round of the outer loop, on the running \<open>bestMatch\<close>.\<close>

definition score :: "jsstring \<Rightarrow> signature \<Rightarrow> rat" where
  "score lowerText sw = of_nat (countMatches lowerText (patterns sw)) / of_nat (length (patterns sw))"

definition considerSoftware :: "jsstring \<Rightarrow> signature \<Rightarrow> detection \<Rightarrow> detection" where
  "considerSoftware lowerText sw bestMatch =
     (let confidence = score lowerText sw in
      if confidence > detection.confidence bestMatch
      then \<lparr>software = name sw, confidence = confidence\<rparr>
      else bestMatch)"

definition detectCreativeSoftware :: "jsstring \<Rightarrow> detection" where
  "detectCreativeSoftware text =
     (let lowerText = toLowerCase text in
      fold (considerSoftware lowerText) softwarePatterns \<lparr>software = js ''Unknown'', confidence = 0\<rparr>)"

section \<open>UI elements and panels\<close>

definition uiPatterns :: "jsstring list" where
  "uiPatterns = map js
    [''timeline'', ''inspector'', ''browser'', ''viewer'', ''canvas'', ''toolbar'', ''panel'', ''window'',
     ''program monitor'', ''source monitor'', ''project panel'', ''effect controls'', ''lumetri color'',
     ''essential graphics'', ''essential sound'', ''sequence'', ''media browser'',
     ''media pool'', ''timeline viewer'', ''inspector panel'', ''color wheels'', ''nodes'', ''gallery'',
     ''scopes'', ''mixer'', ''fairlight'', ''fusion page'', ''edit page'', ''color page'',
     ''layers panel'', ''properties panel'', ''history panel'', ''brush panel'', ''color panel'',
     ''channels'', ''paths'', ''adjustment layers'', ''filter gallery'',
     ''composition panel'', ''project panel'', ''timeline panel'', ''effect controls panel'',
     ''character panel'', ''paragraph panel'', ''align panel'', ''tracker panel'',
     ''play'', ''pause'', ''stop'', ''record'', ''zoom'', ''scale'', ''rotate'', ''position'',
     ''opacity'', ''blend mode'', ''mask'', ''keyframe'', ''transition'', ''effect'']"

definition panelPatterns :: "jsstring list" where
  "panelPatterns = map js
    [''project panel'', ''timeline panel'', ''program monitor'', ''source monitor'',
     ''effect controls'', ''lumetri color'', ''essential graphics'', ''essential sound'',
     ''media pool'', ''inspector'', ''color wheels'', ''scopes'', ''mixer'',
     ''layers panel'', ''properties panel'', ''history panel'', ''tools panel'',
     ''color panel'', ''swatches panel'', ''brush panel'', ''character panel'']"

text \<open>
  The scanning loop of both extractors: every catalogue entry found in the lower-cased
  text is pushed onto the end of the result.
\<close>

definition pushFound :: "jsstring \<Rightarrow> jsstring list \<Rightarrow> jsstring list" where
  "pushFound lowerText catalogue =
     fold (\<lambda>entry found. if includes_js lowerText entry then found @ [entry] else found) catalogue []"

text \<open>
  \<open>[...new Set(xs)]\<close>: a \<open>Set\<close> keeps its members in the order of their first insertion.
\<close>

definition spreadSet :: "'a list \<Rightarrow> 'a list" where
  "spreadSet xs = fold (\<lambda>x members. if x \<in> set members then members else members @ [x]) xs []"

definition extractUIElements :: "jsstring \<Rightarrow> jsstring list" where
  "extractUIElements text =
     (let lowerText = toLowerCase text;
          foundElements = pushFound lowerText uiPatterns
      in spreadSet foundElements)"

definition extractPanels :: "jsstring \<Rightarrow> jsstring list" where
  "extractPanels text =
     (let lowerText = toLowerCase text;
          foundPanels = pushFound lowerText panelPatterns
      in foundPanels)"

section \<open>The outside world\<close>

text \<open>
  Every call that leaves the program either returns or throws. One run of the pipeline
  passes each call site at most once, so the world of a run is the outcome of each call
  site, \<open>Inl\<close> for a throw. The calls made are appended to a trace of calls.
\<close>

datatype error = Error string

datatype call =
    GetMediaAccessStatus
  | ScreenshotDesktop jsstring
  | UnlinkSync jsstring
  | TakeScreenshot
  | CreateWorker
  | LoadLanguage jsstring
  | Initialize jsstring
  | Recognize jsstring

record outcomes =
  platform :: jsstring
  accessStatus :: "error + jsstring"
  requireScreenshotDesktop :: "error + unit"
  probeCapture :: "error + unit"
  requireFs :: "error + unit"
  unlinkProbe :: "error + unit"
  accessStatusAfter :: "error + jsstring"
  takeScreenshot :: "error + jsstring"
  createWorker :: "error + nat"
  loadLanguage :: "error + unit"
  initialize :: "error + unit"
  recognize :: "error + jsstring"

text \<open>
  \<open>accessStatus\<close> is what \<open>systemPreferences.getMediaAccessStatus('screen')\<close> does at the
  first query and \<open>accessStatusAfter\<close> at the query that follows the probe;
  \<open>requireScreenshotDesktop\<close> and \<open>requireFs\<close> are the loading of the two modules
  (\<open>require\<close>, which is not a call of the trace), \<open>probeCapture\<close> is the awaited capture of
  \<open>screenshot-desktop\<close> to the temporary file and \<open>unlinkProbe\<close> is \<open>fs.unlinkSync\<close> on
  that file. \<open>takeScreenshot\<close> is
  the screen capturer of the pipeline, \<open>createWorker\<close>, \<open>loadLanguage\<close>, \<open>initialize\<close> and
  \<open>recognize\<close> are the OCR engine; \<open>recognize\<close> returns the \<open>data.text\<close> of its result, and
  a result without a string there counts as a throw, since the statements that read it
  throw inside the same \<open>try\<close>. Logging to the console is taken not to throw.
\<close>

section \<open>PermissionsHelper\<close>

definition darwin :: jsstring where
  "darwin = js ''darwin''"

definition permissionTestFile :: jsstring where
  "permissionTestFile = js ''/tmp/permission-test.png''"

definition checkScreenCapturePermission :: "jsstring \<Rightarrow> error + jsstring \<Rightarrow> call list \<Rightarrow> bool \<times> call list" where
  "checkScreenCapturePermission plat status trace =
     (if plat \<noteq> darwin then (True, trace)
      else (case status of
              Inr s \<Rightarrow> (s = js ''granted'', trace @ [GetMediaAccessStatus])
            | Inl e \<Rightarrow> (False, trace @ [GetMediaAccessStatus])))"

text \<open>
  The first copy of the file: the probe capture, the clean-up and the second query. The
  outer \<open>try\<close> holds the two \<open>require\<close>s, the capture and the second query, and its
  \<open>catch\<close> returns false; the inner \<open>try\<close> holds \<open>unlinkSync\<close> alone, and its \<open>catch\<close> is
  empty.
\<close>

definition handlePermissionForContextCapture :: "outcomes \<Rightarrow> call list \<Rightarrow> bool \<times> call list" where
  "handlePermissionForContextCapture w trace =
     (let (hasPermission, trace1) = checkScreenCapturePermission (platform w) (accessStatus w) trace in
      if \<not> hasPermission \<and> platform w = darwin then
        (case requireScreenshotDesktop w of
           Inl e \<Rightarrow> (False, trace1)
         | Inr screenshot \<Rightarrow>
             (case probeCapture w of
                Inl e \<Rightarrow> (False, trace1 @ [ScreenshotDesktop permissionTestFile])
              | Inr u \<Rightarrow>
                  (let trace2 = trace1 @ [ScreenshotDesktop permissionTestFile] in
                   case requireFs w of
                     Inl e \<Rightarrow> (False, trace2)
                   | Inr fs \<Rightarrow>
                       (let trace3 = (case unlinkProbe w of
                                        Inr u \<Rightarrow> trace2 @ [UnlinkSync permissionTestFile]
                                      | Inl e \<Rightarrow> trace2 @ [UnlinkSync permissionTestFile])
                        in checkScreenCapturePermission (platform w) (accessStatusAfter w) trace3))))
      else (hasPermission, trace1))"

text \<open>The second copy of the file: the query alone.\<close>

definition handlePermissionForContextCapture_second :: "outcomes \<Rightarrow> call list \<Rightarrow> bool \<times> call list" where
  "handlePermissionForContextCapture_second w trace =
     (let (hasPermission, trace1) = checkScreenCapturePermission (platform w) (accessStatus w) trace in
      (hasPermission, trace1))"

section \<open>ContextHelper\<close>

text \<open>
  \<open>ContextData\<close> has the two fields of a detection result and four more; it is the
  record of detections, extended.
\<close>

record ContextData = detection +
  panels :: "jsstring list"
  text_content :: jsstring
  screenshot_path :: jsstring
  ui_elements :: "jsstring list"

record state =
  ocrWorker :: "nat option"
  calls :: "call list"

definition logCall :: "call \<Rightarrow> state \<Rightarrow> state" where
  "logCall c st = st\<lparr>calls := calls st @ [c]\<rparr>"

definition initializeOCR :: "outcomes \<Rightarrow> state \<Rightarrow> (error + unit) \<times> state" where
  "initializeOCR w st =
     (case ocrWorker st of
        Some worker \<Rightarrow> (Inr (), st)
      | None \<Rightarrow>
          (case createWorker w of
             Inl e \<Rightarrow> (Inl e, logCall CreateWorker st)
           | Inr worker \<Rightarrow>
               (let st1 = (logCall CreateWorker st)\<lparr>ocrWorker := Some worker\<rparr> in
                case loadLanguage w of
                  Inl e \<Rightarrow> (Inl e, logCall (LoadLanguage (js ''eng'')) st1)
                | Inr u \<Rightarrow>
                    (let st2 = logCall (LoadLanguage (js ''eng'')) st1 in
                     case initialize w of
                       Inl e \<Rightarrow> (Inl e, logCall (Initialize (js ''eng'')) st2)
                     | Inr u \<Rightarrow> (Inr (), logCall (Initialize (js ''eng'')) st2)))))"

definition permissionText :: jsstring where
  "permissionText =
     js ''Screen recording permission needed for context detection. Please enable in System Preferences ''
     @ [0x2192] @ js '' Privacy & Security '' @ [0x2192] @ js '' Screen Recording.''"

definition permissionRequired :: ContextData where
  "permissionRequired =
     \<lparr>software = js ''Permission Required'', confidence = 0, panels = [],
      text_content = permissionText, screenshot_path = [], ui_elements = []\<rparr>"

definition unknownContext :: ContextData where
  "unknownContext =
     \<lparr>software = js ''Unknown'', confidence = 0, panels = [],
      text_content = [], screenshot_path = [], ui_elements = []\<rparr>"

text \<open>
  The statements inside \<open>try\<close>. The permission handler is the one of the
  \<open>PermissionsHelper\<close> the program is built with, an argument here since the file has two.
  Both handlers catch what their own calls throw, so a handler returns a boolean; its
  call is inside the \<open>try\<close> all the same.
\<close>

definition tryBlock :: "(outcomes \<Rightarrow> call list \<Rightarrow> bool \<times> call list) \<Rightarrow> outcomes \<Rightarrow> state \<Rightarrow> (error + ContextData) \<times> state" where
  "tryBlock handlePermission w st =
     (let (hasPermission, trace1) = handlePermission w (calls st);
          st1 = st\<lparr>calls := trace1\<rparr>
      in
      if \<not> hasPermission \<and> platform w = darwin then (Inr permissionRequired, st1)
      else
        (case takeScreenshot w of
           Inl e \<Rightarrow> (Inl e, logCall TakeScreenshot st1)
         | Inr screenshotPath \<Rightarrow>
             (case initializeOCR w (logCall TakeScreenshot st1) of
                (Inl e, st2) \<Rightarrow> (Inl e, st2)
              | (Inr u, st2) \<Rightarrow>
                  (case recognize w of
                     Inl e \<Rightarrow> (Inl e, logCall (Recognize screenshotPath) st2)
                   | Inr text \<Rightarrow>
                       (let softwareDetection = detectCreativeSoftware text;
                            panels = extractPanels text;
                            uiElements = extractUIElements text;
                            contextData =
                              \<lparr>software = software softwareDetection,
                               confidence = confidence softwareDetection,
                               panels = panels,
                               text_content = slice0 text 500,
                               screenshot_path = screenshotPath,
                               ui_elements = uiElements\<rparr>
                        in (Inr contextData, logCall (Recognize screenshotPath) st2))))))"

text \<open>\<open>try\<close> with its \<open>catch\<close>: a throw of the block becomes the return of the fallback record.\<close>

definition captureAndAnalyzeContext :: "(outcomes \<Rightarrow> call list \<Rightarrow> bool \<times> call list) \<Rightarrow> outcomes \<Rightarrow> state \<Rightarrow> (error + ContextData) \<times> state" where
  "captureAndAnalyzeContext handlePermission w st =
     (case tryBlock handlePermission w st of
        (Inr contextData, st') \<Rightarrow> (Inr contextData, st')
      | (Inl e, st') \<Rightarrow> (Inr unknownContext, st'))"

section \<open>Example runs\<close>

text \<open>A helper that has not created its OCR worker yet, before any call.\<close>

definition freshState :: state where
  "freshState = \<lparr>ocrWorker = None, calls = []\<rparr>"

text \<open>
  macOS without the screen recording permission, before and after the probe; the probe
  capture succeeds and deleting its file fails. Everything after the gate would succeed.
\<close>

definition deniedWorld :: outcomes where
  "deniedWorld =
     \<lparr>platform = js ''darwin'',
      accessStatus = Inr (js ''denied''),
      requireScreenshotDesktop = Inr (),
      probeCapture = Inr (),
      requireFs = Inr (),
      unlinkProbe = Inl (Error ''ENOENT''),
      accessStatusAfter = Inr (js ''denied''),
      takeScreenshot = Inr (js ''/tmp/screenshot.png''),
      createWorker = Inr 1,
      loadLanguage = Inr (),
      initialize = Inr (),
      recognize = Inr (js ''Premiere Pro'')\<rparr>"

text \<open>
  Linux, where no permission is asked for; the capture and the start of the OCR engine
  succeed and the engine recognizes 613 code units, upper-case letters among them.
\<close>

definition longText :: jsstring where
  "longText = js ''Premiere Pro '' @ replicate 600 0x41"

definition linuxWorld :: outcomes where
  "linuxWorld =
     \<lparr>platform = js ''linux'',
      accessStatus = Inl (Error ''not queried''),
      requireScreenshotDesktop = Inl (Error ''not attempted''),
      probeCapture = Inl (Error ''not attempted''),
      requireFs = Inl (Error ''not attempted''),
      unlinkProbe = Inl (Error ''not attempted''),
      accessStatusAfter = Inl (Error ''not queried''),
      takeScreenshot = Inr (js ''/tmp/screenshot.png''),
      createWorker = Inr 1,
      loadLanguage = Inr (),
      initialize = Inr (),
      recognize = Inr longText\<rparr>"

section \<open>Facts about the classifier\<close>

lemma includes_js_sublist: "includes_js t p \<longleftrightarrow> sublist p t"
  by (induction t) (simp_all add: sublist_Cons_right)

lemma includes_js_iff: "includes_js t p \<longleftrightarrow> (\<exists>a b. t = a @ p @ b)"
  by (simp add: includes_js_sublist sublist_def)

lemma fold_count:
  "fold (\<lambda>pattern matches. if P pattern then matches + 1 else matches) ps (n::nat) = n + length (filter P ps)"
  by (induction ps arbitrary: n) simp_all

lemma countMatches_filter: "countMatches lowerText ps = length (filter (includes_js lowerText) ps)"
  by (simp add: countMatches_def fold_count)

lemma score_nonneg: "0 \<le> score lowerText sw"
  by (simp add: score_def)

lemma score_le_one: "score lowerText sw \<le> 1"
proof -
  have "countMatches lowerText (patterns sw) \<le> length (patterns sw)"
    by (simp add: countMatches_filter)
  then have "(of_nat (countMatches lowerText (patterns sw)) :: rat) \<le> of_nat (length (patterns sw))"
    by (simp only: of_nat_le_iff)
  then show ?thesis
    unfolding score_def by (simp add: divide_le_eq_1)
qed

lemma fold_consider_keep:
  "\<forall>s \<in> set sigs. score lt s \<le> confidence b \<Longrightarrow> fold (considerSoftware lt) sigs b = b"
  by (induction sigs arbitrary: b) (simp_all add: considerSoftware_def Let_def)

lemma fold_consider_below:
  "confidence b < c \<Longrightarrow> \<forall>s \<in> set sigs. score lt s < c \<Longrightarrow>
   confidence (fold (considerSoftware lt) sigs b) < c"
  by (induction sigs arbitrary: b) (simp_all add: considerSoftware_def Let_def)

lemma fold_consider_first_best:
  assumes "\<forall>s \<in> set before. score lt s < score lt sw"
    and "\<forall>s \<in> set after. score lt s \<le> score lt sw"
    and "confidence b < score lt sw"
  shows "fold (considerSoftware lt) (before @ sw # after) b = \<lparr>software = name sw, confidence = score lt sw\<rparr>"
proof -
  let ?b' = "fold (considerSoftware lt) before b"
  have "confidence ?b' < score lt sw"
    using assms(1,3) by (simp add: fold_consider_below)
  then have "considerSoftware lt sw ?b' = \<lparr>software = name sw, confidence = score lt sw\<rparr>"
    by (simp add: considerSoftware_def Let_def)
  then show ?thesis
    using assms(2) by (simp add: fold_consider_keep)
qed

lemma fold_consider_cases:
  "fold (considerSoftware lt) sigs b = b \<or>
   (\<exists>s \<in> set sigs. fold (considerSoftware lt) sigs b = \<lparr>software = name s, confidence = score lt s\<rparr>
       \<and> confidence b < score lt s)"
proof (induction sigs arbitrary: b)
  case Nil
  show ?case by simp
next
  case (Cons s sigs)
  show ?case
  proof (cases "score lt s > confidence b")
    case True
    let ?b1 = "\<lparr>software = name s, confidence = score lt s\<rparr>"
    have step: "considerSoftware lt s b = ?b1"
      using True by (simp add: considerSoftware_def Let_def)
    from Cons.IH[of ?b1] show ?thesis
    proof
      assume "fold (considerSoftware lt) sigs ?b1 = ?b1"
      then show ?thesis using True step by simp
    next
      assume "\<exists>s'\<in>set sigs. fold (considerSoftware lt) sigs ?b1 = \<lparr>software = name s', confidence = score lt s'\<rparr>
          \<and> confidence ?b1 < score lt s'"
      then obtain s' where "s' \<in> set sigs"
        and "fold (considerSoftware lt) sigs ?b1 = \<lparr>software = name s', confidence = score lt s'\<rparr>"
        and "score lt s < score lt s'" by auto
      then show ?thesis using True step by auto
    qed
  next
    case False
    then have "considerSoftware lt s b = b"
      by (simp add: considerSoftware_def Let_def)
    then show ?thesis using Cons.IH[of b] by auto
  qed
qed

lemma names_distinct: "distinct (map name softwarePatterns)"
  by (simp add: softwarePatterns_def js_def)

lemma names_not_unknown: "js ''Unknown'' \<notin> set (map name softwarePatterns)"
  by (simp add: softwarePatterns_def js_def)

lemma patterns_nonempty: "[] \<notin> set (map patterns softwarePatterns)"
  by (simp add: softwarePatterns_def)

lemma name_not_unknown:
  assumes "s \<in> set softwarePatterns"
  shows "name s \<noteq> js ''Unknown''"
proof
  assume "name s = js ''Unknown''"
  with assms have "js ''Unknown'' \<in> name ` set softwarePatterns"
    by (metis imageI)
  then show False using names_not_unknown by simp
qed

lemma detect_cases:
  "detectCreativeSoftware t = \<lparr>software = js ''Unknown'', confidence = 0\<rparr> \<or>
   (\<exists>s \<in> set softwarePatterns.
      detectCreativeSoftware t = \<lparr>software = name s, confidence = score (toLowerCase t) s\<rparr>
      \<and> 0 < score (toLowerCase t) s)"
  using fold_consider_cases[of "toLowerCase t" softwarePatterns "\<lparr>software = js ''Unknown'', confidence = 0\<rparr>"]
  by (simp add: detectCreativeSoftware_def Let_def)


section \<open>Facts about the extractors and about lower-casing\<close>

lemma fold_push_filter:
  "fold (\<lambda>entry found. if P entry then found @ [entry] else found) catalogue acc = acc @ filter P catalogue"
  by (induction catalogue arbitrary: acc) simp_all

lemma pushFound_filter: "pushFound lowerText catalogue = filter (includes_js lowerText) catalogue"
  by (simp add: pushFound_def fold_push_filter)

lemma fold_spread_set:
  "set (fold (\<lambda>x members. if x \<in> set members then members else members @ [x]) xs acc) = set acc \<union> set xs"
  by (induction xs arbitrary: acc) auto

lemma fold_spread_distinct:
  "distinct acc \<Longrightarrow> distinct (fold (\<lambda>x members. if x \<in> set members then members else members @ [x]) xs acc)"
  by (induction xs arbitrary: acc) auto

lemma fold_spread_subseq:
  "\<exists>ys. fold (\<lambda>x members. if x \<in> set members then members else members @ [x]) xs acc = acc @ ys \<and> subseq ys xs"
proof (induction xs arbitrary: acc)
  case Nil
  show ?case by simp
next
  case (Cons x xs)
  show ?case
  proof (cases "x \<in> set acc")
    case True
    from Cons.IH[of acc] obtain ys
      where "fold (\<lambda>x members. if x \<in> set members then members else members @ [x]) xs acc = acc @ ys"
        and "subseq ys xs" by blast
    with True show ?thesis by auto
  next
    case False
    from Cons.IH[of "acc @ [x]"] obtain ys
      where "fold (\<lambda>x members. if x \<in> set members then members else members @ [x]) xs (acc @ [x]) = (acc @ [x]) @ ys"
        and "subseq ys xs" by blast
    with False have "fold (\<lambda>x members. if x \<in> set members then members else members @ [x]) (x # xs) acc = acc @ (x # ys)"
      and "subseq (x # ys) (x # xs)" by simp_all
    then show ?thesis by blast
  qed
qed

lemma set_spreadSet: "set (spreadSet xs) = set xs"
  by (simp add: spreadSet_def fold_spread_set)

lemma distinct_spreadSet: "distinct (spreadSet xs)"
  by (simp add: spreadSet_def fold_spread_distinct)

lemma subseq_spreadSet: "subseq (spreadSet xs) xs"
  using fold_spread_subseq[of xs "[]"] by (auto simp: spreadSet_def)

lemma distinct_panelPatterns: "distinct panelPatterns"
  by (simp add: panelPatterns_def js_def)

lemma score_zero:
  assumes "\<forall>p \<in> set (patterns sw). \<not> includes_js lt p"
  shows "score lt sw = 0"
proof -
  from assms have "filter (includes_js lt) (patterns sw) = []"
    by (simp add: filter_empty_conv)
  then show ?thesis by (simp add: score_def countMatches_filter)
qed

lemma toLowerCase_append: "toLowerCase (a @ b) = toLowerCase a @ toLowerCase b"
  by (simp add: toLowerCase_def)

lemma includes_js_lower:
  assumes "includes_js t p" and "toLowerCase p = p"
  shows "includes_js (toLowerCase t) p"
proof -
  from assms(1) obtain a b where "t = a @ p @ b"
    by (auto simp: includes_js_iff)
  then have "toLowerCase t = toLowerCase a @ p @ toLowerCase b"
    by (simp add: toLowerCase_append assms(2))
  then show ?thesis
    unfolding includes_js_iff by blast
qed

lemma includes_js_trans: "includes_js t p \<Longrightarrow> includes_js p q \<Longrightarrow> includes_js t q"
  unfolding includes_js_sublist by (rule sublist_order.order_trans)

section \<open>Facts about the permission gate and the pipeline\<close>

lemma check_trace:
  "snd (checkScreenCapturePermission plat status tr) = tr \<or>
   snd (checkScreenCapturePermission plat status tr) = tr @ [GetMediaAccessStatus]"
  by (simp add: checkScreenCapturePermission_def split: sum.splits)

lemma check_denied_darwin:
  "\<not> fst (checkScreenCapturePermission plat status tr) \<Longrightarrow> plat = darwin"
  by (simp add: checkScreenCapturePermission_def split: if_splits)



lemma initializeOCR_worker_present:
  "ocrWorker st = Some worker \<Longrightarrow> initializeOCR w st = (Inr (), st)"
  by (simp add: initializeOCR_def)

lemma initializeOCR_succeeds:
  assumes "ocrWorker st = None \<longrightarrow> \<not> isl (createWorker w) \<and> \<not> isl (loadLanguage w) \<and> \<not> isl (initialize w)"
  shows "fst (initializeOCR w st) = Inr ()"
  using assms by (auto simp: initializeOCR_def Let_def split: option.splits sum.splits)

lemma initializeOCR_fails:
  assumes "ocrWorker st = None" and "isl (createWorker w) \<or> isl (loadLanguage w) \<or> isl (initialize w)"
  shows "isl (fst (initializeOCR w st))"
  using assms by (auto simp: initializeOCR_def Let_def split: option.splits sum.splits)


lemma tryBlock_capture_fails:
  assumes "fst (handlePermission w (calls st)) \<or> platform w \<noteq> darwin"
    and "isl (takeScreenshot w)"
  shows "isl (fst (tryBlock handlePermission w st))"
  using assms by (auto simp: tryBlock_def Let_def split: prod.splits sum.splits)

lemma tryBlock_init_fails:
  assumes "fst (handlePermission w (calls st)) \<or> platform w \<noteq> darwin"
    and "ocrWorker st = None"
    and "isl (createWorker w) \<or> isl (loadLanguage w) \<or> isl (initialize w)"
  shows "isl (fst (tryBlock handlePermission w st))"
proof (cases "takeScreenshot w")
  case (Inl e)
  then show ?thesis using assms(1) by (simp add: tryBlock_capture_fails)
next
  case (Inr screenshotPath)
  let ?st1 = "logCall TakeScreenshot (st\<lparr>calls := snd (handlePermission w (calls st))\<rparr>)"
  have "ocrWorker ?st1 = None"
    using assms(2) by (simp add: logCall_def)
  then have "isl (fst (initializeOCR w ?st1))"
    using assms(3) by (rule initializeOCR_fails)
  then show ?thesis
    using assms(1) Inr by (auto simp: tryBlock_def Let_def split: prod.splits sum.splits)
qed

lemma tryBlock_recognize_fails:
  assumes "fst (handlePermission w (calls st)) \<or> platform w \<noteq> darwin"
    and "isl (recognize w)"
  shows "isl (fst (tryBlock handlePermission w st))"
  using assms by (auto simp: tryBlock_def Let_def split: prod.splits sum.splits)

lemma tryBlock_success:
  assumes "fst (handlePermission w (calls st)) \<or> platform w \<noteq> darwin"
    and "takeScreenshot w = Inr screenshotPath"
    and "ocrWorker st = None \<longrightarrow> \<not> isl (createWorker w) \<and> \<not> isl (loadLanguage w) \<and> \<not> isl (initialize w)"
    and "recognize w = Inr text"
  shows "fst (tryBlock handlePermission w st) =
     Inr \<lparr>software = software (detectCreativeSoftware text),
          confidence = confidence (detectCreativeSoftware text),
          panels = extractPanels text,
          text_content = take 500 text,
          screenshot_path = screenshotPath,
          ui_elements = extractUIElements text\<rparr>"
proof -
  let ?st1 = "logCall TakeScreenshot (st\<lparr>calls := snd (handlePermission w (calls st))\<rparr>)"
  have "ocrWorker ?st1 = None \<longrightarrow> \<not> isl (createWorker w) \<and> \<not> isl (loadLanguage w) \<and> \<not> isl (initialize w)"
    using assms(3) by (simp add: logCall_def)
  then have "fst (initializeOCR w ?st1) = Inr ()"
    by (rule initializeOCR_succeeds)
  then show ?thesis
    using assms(1,2,4) by (auto simp: tryBlock_def Let_def slice0_def split: prod.splits sum.splits)
qed

lemma tryBlock_outcomes:
  "fst (tryBlock handlePermission w st) = Inr permissionRequired \<or>
   isl (fst (tryBlock handlePermission w st)) \<or>
   (\<exists>screenshotPath text. takeScreenshot w = Inr screenshotPath \<and> recognize w = Inr text \<and>
      fst (tryBlock handlePermission w st) =
        Inr \<lparr>software = software (detectCreativeSoftware text),
             confidence = confidence (detectCreativeSoftware text),
             panels = extractPanels text,
             text_content = take 500 text,
             screenshot_path = screenshotPath,
             ui_elements = extractUIElements text\<rparr>)"
  by (auto simp: tryBlock_def Let_def slice0_def split: prod.splits sum.splits)

lemma capture_of_tryBlock:
  "fst (captureAndAnalyzeContext handlePermission w st) =
     (case fst (tryBlock handlePermission w st) of Inr contextData \<Rightarrow> Inr contextData | Inl e \<Rightarrow> Inr unknownContext)"
  "snd (captureAndAnalyzeContext handlePermission w st) = snd (tryBlock handlePermission w st)"
  by (simp_all add: captureAndAnalyzeContext_def split: prod.splits sum.splits)

lemma handle_second_is_check:
  "handlePermissionForContextCapture_second w tr =
     checkScreenCapturePermission (platform w) (accessStatus w) tr"
  by (simp add: handlePermissionForContextCapture_second_def)

section \<open>Claims about software detection\<close>

text \<open>
  Claim C2. For every text the confidence of the detection lies between 0 and 1, and
  when the detected software is the name of a signature of the catalogue, the confidence
  is the number of that signature's patterns found in the lower-cased text divided by
  the number of its patterns. No signature of the catalogue has an empty pattern list
  (\<open>patterns_nonempty\<close>), so the division is never by zero.
\<close>

theorem C2_confidence:
  "0 \<le> confidence (detectCreativeSoftware t) \<and> confidence (detectCreativeSoftware t) \<le> 1 \<and>
   (\<forall>sw \<in> set softwarePatterns. software (detectCreativeSoftware t) = name sw \<longrightarrow>
      confidence (detectCreativeSoftware t) =
        of_nat (length (filter (includes_js (toLowerCase t)) (patterns sw))) / of_nat (length (patterns sw)))"
proof -
  from detect_cases[of t] show ?thesis
  proof
    assume u: "detectCreativeSoftware t = \<lparr>software = js ''Unknown'', confidence = 0\<rparr>"
    from u have r: "0 \<le> confidence (detectCreativeSoftware t) \<and> confidence (detectCreativeSoftware t) \<le> 1"
      by simp
    from u have "software (detectCreativeSoftware t) = js ''Unknown''"
      by simp
    then have "\<forall>sw \<in> set softwarePatterns. software (detectCreativeSoftware t) \<noteq> name sw"
      using name_not_unknown by metis
    with r show ?thesis by blast
  next
    assume "\<exists>s \<in> set softwarePatterns.
      detectCreativeSoftware t = \<lparr>software = name s, confidence = score (toLowerCase t) s\<rparr>
      \<and> 0 < score (toLowerCase t) s"
    then obtain s where s: "s \<in> set softwarePatterns"
      and d: "detectCreativeSoftware t = \<lparr>software = name s, confidence = score (toLowerCase t) s\<rparr>"
      by blast
    have same: "sw = s" if "sw \<in> set softwarePatterns" "name s = name sw" for sw
      using that s names_distinct by (metis distinct_map inj_onD)
    have r: "0 \<le> confidence (detectCreativeSoftware t) \<and> confidence (detectCreativeSoftware t) \<le> 1"
      by (simp add: d score_nonneg score_le_one)
    have e: "confidence (detectCreativeSoftware t) =
        of_nat (length (filter (includes_js (toLowerCase t)) (patterns s))) / of_nat (length (patterns s))"
      by (simp add: d score_def countMatches_filter)
    have "software (detectCreativeSoftware t) = name s"
      by (simp add: d)
    then have "\<forall>sw \<in> set softwarePatterns. software (detectCreativeSoftware t) = name sw \<longrightarrow> sw = s"
      using same by simp
    with r e show ?thesis by blast
  qed
qed

text \<open>Claim C2 on the text \<open>Timeline and Color\<close>: one of the five patterns of Premiere Pro is found.\<close>

theorem C2_confidence_witness:
  "software (detectCreativeSoftware (js ''Timeline and Color'')) = js ''Adobe Premiere Pro'' \<and>
   confidence (detectCreativeSoftware (js ''Timeline and Color'')) = 1 / 5"
proof -
  let ?t = "js ''Timeline and Color''"
  have a: "software (detectCreativeSoftware ?t) = name (hd softwarePatterns)" by code_simp
  have n: "name (hd softwarePatterns) = js ''Adobe Premiere Pro''" by code_simp
  have m: "hd softwarePatterns \<in> set softwarePatterns" by (simp add: softwarePatterns_def)
  have c: "(of_nat (length (filter (includes_js (toLowerCase ?t)) (patterns (hd softwarePatterns)))) :: rat)
       / of_nat (length (patterns (hd softwarePatterns))) = 1 / 5" by code_simp
  from C2_confidence[of ?t] a m c n show ?thesis by metis
qed

text \<open>
  Claim C3, amended. A signature whose score is above 0, above the score of every
  signature declared before it and not below the score of any signature declared after
  it is the result of detection, with that score as confidence: the highest score wins
  and, among equal highest scores, the first declaration.
\<close>

theorem C3_first_highest:
  assumes "softwarePatterns = before @ sw # after"
    and "\<forall>s \<in> set before. score (toLowerCase t) s < score (toLowerCase t) sw"
    and "\<forall>s \<in> set after. score (toLowerCase t) s \<le> score (toLowerCase t) sw"
    and "0 < score (toLowerCase t) sw"
  shows "detectCreativeSoftware t = \<lparr>software = name sw, confidence = score (toLowerCase t) sw\<rparr>"
  using assms fold_consider_first_best[of before "toLowerCase t" sw after "\<lparr>software = js ''Unknown'', confidence = 0\<rparr>"]
  by (simp add: detectCreativeSoftware_def Let_def)

text \<open>
  The amended claim C3 on the text \<open>Effects Library\<close>: After Effects, Lightroom and Logic Pro
  score \<open>1 / 5\<close> each, the three signatures before After Effects score 0, and After Effects wins.
\<close>

theorem C3_first_highest_witness:
  "detectCreativeSoftware (js ''Effects Library'') = \<lparr>software = js ''Adobe After Effects'', confidence = 1 / 5\<rparr> \<and>
   score (toLowerCase (js ''Effects Library'')) (softwarePatterns ! 6) = 1 / 5"
proof -
  let ?lt = "toLowerCase (js ''Effects Library'')"
  have d: "softwarePatterns = take 3 softwarePatterns @ softwarePatterns ! 3 # drop 4 softwarePatterns"
    by (simp add: softwarePatterns_def)
  have b: "\<forall>s \<in> set (take 3 softwarePatterns). score ?lt s < score ?lt (softwarePatterns ! 3)"
    by code_simp
  have a: "\<forall>s \<in> set (drop 4 softwarePatterns). score ?lt s \<le> score ?lt (softwarePatterns ! 3)"
    by code_simp
  have p: "0 < score ?lt (softwarePatterns ! 3)"
    by code_simp
  have v: "name (softwarePatterns ! 3) = js ''Adobe After Effects''"
    "score ?lt (softwarePatterns ! 3) = 1 / 5" "score ?lt (softwarePatterns ! 6) = 1 / 5"
    by code_simp+
  from C3_first_highest[OF d b a p] v show ?thesis by simp
qed

text \<open>
  Claim C3 as stated fails where the highest score is 0. On the empty text the eight
  signatures all score 0, so they share the highest score, and the result is
  \<open>Unknown\<close>, not the first declared signature: \<open>bestMatch\<close> starts at confidence 0 and
  is replaced on a strictly greater score only.
\<close>

theorem C3_counterexample:
  "map (score (toLowerCase (js ''''))) softwarePatterns = [0, 0, 0, 0, 0, 0, 0, 0] \<and>
   name (hd softwarePatterns) = js ''Adobe Premiere Pro'' \<and>
   software (detectCreativeSoftware (js '''')) = js ''Unknown'' \<and>
   software (detectCreativeSoftware (js '''')) \<noteq> name (hd softwarePatterns)"
  by code_simp

text \<open>
  Claim C10. For every text the detected software is \<open>Unknown\<close> exactly when the
  confidence is 0: a named application always carries a confidence above 0.
\<close>

theorem C10_unknown_iff_zero:
  "software (detectCreativeSoftware t) = js ''Unknown'' \<longleftrightarrow> confidence (detectCreativeSoftware t) = 0"
proof -
  from detect_cases[of t] show ?thesis
  proof
    assume "detectCreativeSoftware t = \<lparr>software = js ''Unknown'', confidence = 0\<rparr>"
    then show ?thesis by simp
  next
    assume "\<exists>s \<in> set softwarePatterns.
      detectCreativeSoftware t = \<lparr>software = name s, confidence = score (toLowerCase t) s\<rparr>
      \<and> 0 < score (toLowerCase t) s"
    then obtain s where s: "s \<in> set softwarePatterns"
      and d: "detectCreativeSoftware t = \<lparr>software = name s, confidence = score (toLowerCase t) s\<rparr>"
      and p: "0 < score (toLowerCase t) s"
      by blast
    from s have "name s \<noteq> js ''Unknown''" by (rule name_not_unknown)
    with d p show ?thesis by simp
  qed
qed

text \<open>
  Claim C5. A text whose lower-casing contains no pattern of any signature is detected
  as \<open>Unknown\<close> with confidence 0. The empty text gives \<open>Unknown\<close>, confidence 0, no
  panels and no UI elements.
\<close>

theorem C5_no_keyword_unknown:
  "((\<forall>sw \<in> set softwarePatterns. \<forall>p \<in> set (patterns sw). \<not> includes_js (toLowerCase t) p) \<longrightarrow>
      detectCreativeSoftware t = \<lparr>software = js ''Unknown'', confidence = 0\<rparr>) \<and>
   detectCreativeSoftware (js '''') = \<lparr>software = js ''Unknown'', confidence = 0\<rparr> \<and>
   extractPanels (js '''') = [] \<and> extractUIElements (js '''') = []"
proof -
  have "detectCreativeSoftware t = \<lparr>software = js ''Unknown'', confidence = 0\<rparr>"
    if h: "\<forall>sw \<in> set softwarePatterns. \<forall>p \<in> set (patterns sw). \<not> includes_js (toLowerCase t) p"
  proof -
    from h have "\<forall>s \<in> set softwarePatterns. score (toLowerCase t) s \<le> confidence \<lparr>software = js ''Unknown'', confidence = 0\<rparr>"
      by (simp add: score_zero)
    then show ?thesis
      by (simp add: detectCreativeSoftware_def Let_def fold_consider_keep)
  qed
  moreover have "detectCreativeSoftware (js '''') = \<lparr>software = js ''Unknown'', confidence = 0\<rparr>"
    by code_simp
  moreover have "extractPanels (js '''') = []"
    by code_simp
  moreover have "extractUIElements (js '''') = []"
    by code_simp
  ultimately show ?thesis by blast
qed

text \<open>Claim C5 on a text without any pattern.\<close>

theorem C5_no_keyword_unknown_witness:
  "detectCreativeSoftware (js ''Quarterly budget 2024'') = \<lparr>software = js ''Unknown'', confidence = 0\<rparr>"
proof -
  have "\<forall>sw \<in> set softwarePatterns. \<forall>p \<in> set (patterns sw). \<not> includes_js (toLowerCase (js ''Quarterly budget 2024'')) p"
    by code_simp
  with C5_no_keyword_unknown[of "js ''Quarterly budget 2024''"] show ?thesis by blast
qed

text \<open>
  Claim C6. A text that contains \<open>premiere\<close>, \<open>timeline\<close>, \<open>lumetri color\<close>,
  \<open>essential graphics\<close> and \<open>sequence\<close> is detected as Adobe Premiere Pro with
  confidence 1. The third pattern of the catalogue is \<open>lumetri\<close>, which \<open>lumetri color\<close>
  contains.
\<close>

theorem C6_premiere_full:
  assumes "includes_js t (js ''premiere'')"
    and "includes_js t (js ''timeline'')"
    and "includes_js t (js ''lumetri color'')"
    and "includes_js t (js ''essential graphics'')"
    and "includes_js t (js ''sequence'')"
  shows "detectCreativeSoftware t = \<lparr>software = js ''Adobe Premiere Pro'', confidence = 1\<rparr>"
proof -
  let ?lt = "toLowerCase t"
  define sw where "sw = hd softwarePatterns"
  define rest where "rest = tl softwarePatterns"
  have "includes_js (js ''lumetri color'') (js ''lumetri'')"
    by code_simp
  with assms(3) have l: "includes_js t (js ''lumetri'')"
    by (rule includes_js_trans)
  have low: "toLowerCase (js ''premiere'') = js ''premiere''" "toLowerCase (js ''timeline'') = js ''timeline''"
    "toLowerCase (js ''lumetri'') = js ''lumetri''" "toLowerCase (js ''essential graphics'') = js ''essential graphics''"
    "toLowerCase (js ''sequence'') = js ''sequence''"
    by code_simp+
  have f: "includes_js ?lt (js ''premiere'')" "includes_js ?lt (js ''timeline'')"
    "includes_js ?lt (js ''lumetri'')" "includes_js ?lt (js ''essential graphics'')"
    "includes_js ?lt (js ''sequence'')"
    using assms(1,2,4,5) l low by (simp_all add: includes_js_lower)
  have ps: "patterns sw = [js ''premiere'', js ''timeline'', js ''lumetri'', js ''essential graphics'', js ''sequence'']"
    by (simp add: sw_def softwarePatterns_def)
  have one: "score ?lt sw = 1"
    by (simp add: score_def countMatches_filter ps f)
  have nm: "name sw = js ''Adobe Premiere Pro''"
    by (simp add: sw_def softwarePatterns_def)
  have d: "softwarePatterns = [] @ sw # rest"
    by (simp add: sw_def rest_def softwarePatterns_def)
  have "detectCreativeSoftware t = fold (considerSoftware ?lt) ([] @ sw # rest) \<lparr>software = js ''Unknown'', confidence = 0\<rparr>"
    unfolding detectCreativeSoftware_def Let_def d ..
  also have "\<dots> = \<lparr>software = name sw, confidence = score ?lt sw\<rparr>"
    by (rule fold_consider_first_best) (simp_all add: one score_le_one)
  finally show ?thesis
    by (simp add: nm one)
qed

text \<open>Claim C6 on a text with all five phrases among other words.\<close>

theorem C6_premiere_full_witness:
  "detectCreativeSoftware (js ''My premiere timeline: lumetri color, essential graphics, sequence 01'')
     = \<lparr>software = js ''Adobe Premiere Pro'', confidence = 1\<rparr>"
proof -
  let ?t = "js ''My premiere timeline: lumetri color, essential graphics, sequence 01''"
  have "includes_js ?t (js ''premiere'')" "includes_js ?t (js ''timeline'')"
    "includes_js ?t (js ''lumetri color'')" "includes_js ?t (js ''essential graphics'')"
    "includes_js ?t (js ''sequence'')"
    by code_simp+
  then show ?thesis by (rule C6_premiere_full)
qed

section \<open>Claims about the extractors\<close>

text \<open>
  Claim C4. For every text, the panels and the UI elements returned are the catalogue
  entries found in the lower-cased text, each once, in the order of the catalogue (a
  subsequence of it). The catalogue of UI elements declares \<open>project panel\<close> twice; the
  result has it once.
\<close>

theorem C4_panels_and_elements:
  "set (extractPanels t) = {entry \<in> set panelPatterns. includes_js (toLowerCase t) entry} \<and>
   set (extractUIElements t) = {entry \<in> set uiPatterns. includes_js (toLowerCase t) entry} \<and>
   distinct (extractPanels t) \<and> distinct (extractUIElements t) \<and>
   subseq (extractPanels t) panelPatterns \<and> subseq (extractUIElements t) uiPatterns"
proof -
  have p: "extractPanels t = filter (includes_js (toLowerCase t)) panelPatterns"
    by (simp add: extractPanels_def Let_def pushFound_filter)
  have u: "extractUIElements t = spreadSet (filter (includes_js (toLowerCase t)) uiPatterns)"
    by (simp add: extractUIElements_def Let_def pushFound_filter)
  have "subseq (spreadSet (filter (includes_js (toLowerCase t)) uiPatterns)) (filter (includes_js (toLowerCase t)) uiPatterns)"
    by (rule subseq_spreadSet)
  moreover have "subseq (filter (includes_js (toLowerCase t)) uiPatterns) uiPatterns"
    by simp
  ultimately have su: "subseq (extractUIElements t) uiPatterns"
    unfolding u by (rule subseq_order.order_trans)
  have "set (extractPanels t) = {entry \<in> set panelPatterns. includes_js (toLowerCase t) entry}"
    unfolding p by auto
  moreover have "set (extractUIElements t) = {entry \<in> set uiPatterns. includes_js (toLowerCase t) entry}"
    unfolding u set_spreadSet by auto
  moreover have "distinct (extractPanels t)"
    unfolding p using distinct_panelPatterns by simp
  moreover have "distinct (extractUIElements t)"
    unfolding u by (rule distinct_spreadSet)
  moreover have "subseq (extractPanels t) panelPatterns"
    unfolding p by simp
  ultimately show ?thesis using su by blast
qed

section \<open>Claims about the permission gate\<close>

text \<open>
  Claim C9, amended. \<open>PermissionsHelper.ts\<close> holds two copies of the handler. In both,
  when the first query reports the permission as granted, the handler returns true after
  that query alone. Otherwise the first copy (lines 33 to 64) loads the capture module
  and attempts the throwaway capture once: when the loading or the capture throws, it
  returns false without deleting or querying again; when the capture returns, it loads
  \<open>fs\<close> (false when that throws), deletes the temporary file without looking at the
  outcome of the deletion, queries the permission again and returns the answer of that
  query. The second copy (lines 104 to 113) returns the answer of the first query and
  makes no other call.
\<close>

theorem C9_prompt_once:
  "(fst (checkScreenCapturePermission (platform w) (accessStatus w) tr) \<longrightarrow>
      handlePermissionForContextCapture w tr =
        (True, snd (checkScreenCapturePermission (platform w) (accessStatus w) tr))) \<and>
   (\<not> fst (checkScreenCapturePermission (platform w) (accessStatus w) tr) \<and>
    isl (requireScreenshotDesktop w) \<longrightarrow>
      handlePermissionForContextCapture w tr = (False, tr @ [GetMediaAccessStatus])) \<and>
   (\<not> fst (checkScreenCapturePermission (platform w) (accessStatus w) tr) \<and>
    \<not> isl (requireScreenshotDesktop w) \<and> isl (probeCapture w) \<longrightarrow>
      handlePermissionForContextCapture w tr =
        (False, tr @ [GetMediaAccessStatus, ScreenshotDesktop permissionTestFile])) \<and>
   (\<not> fst (checkScreenCapturePermission (platform w) (accessStatus w) tr) \<and>
    \<not> isl (requireScreenshotDesktop w) \<and> \<not> isl (probeCapture w) \<and> isl (requireFs w) \<longrightarrow>
      handlePermissionForContextCapture w tr =
        (False, tr @ [GetMediaAccessStatus, ScreenshotDesktop permissionTestFile])) \<and>
   (\<not> fst (checkScreenCapturePermission (platform w) (accessStatus w) tr) \<and>
    \<not> isl (requireScreenshotDesktop w) \<and> \<not> isl (probeCapture w) \<and> \<not> isl (requireFs w) \<longrightarrow>
      handlePermissionForContextCapture w tr =
        checkScreenCapturePermission (platform w) (accessStatusAfter w)
          (tr @ [GetMediaAccessStatus, ScreenshotDesktop permissionTestFile, UnlinkSync permissionTestFile])) \<and>
   handlePermissionForContextCapture_second w tr =
     checkScreenCapturePermission (platform w) (accessStatus w) tr"
  by (auto simp: handlePermissionForContextCapture_def handlePermissionForContextCapture_second_def
      checkScreenCapturePermission_def Let_def
      split: sum.splits prod.splits if_splits)

text \<open>
  The amended claim C9 on macOS with the permission denied at first, for the first copy:
  granted at the second query although the deletion failed, a probe capture that throws,
  a capture module that does not load, and a permission granted from the start.
\<close>

theorem C9_prompt_once_witness:
  "handlePermissionForContextCapture (deniedWorld\<lparr>accessStatusAfter := Inr (js ''granted'')\<rparr>) [] =
     (True, [GetMediaAccessStatus, ScreenshotDesktop permissionTestFile, UnlinkSync permissionTestFile,
             GetMediaAccessStatus]) \<and>
   handlePermissionForContextCapture (deniedWorld\<lparr>probeCapture := Inl (Error ''capture failed'')\<rparr>) [] =
     (False, [GetMediaAccessStatus, ScreenshotDesktop permissionTestFile]) \<and>
   handlePermissionForContextCapture
       (deniedWorld\<lparr>requireScreenshotDesktop := Inl (Error ''module not found'')\<rparr>) [] =
     (False, [GetMediaAccessStatus]) \<and>
   handlePermissionForContextCapture (deniedWorld\<lparr>accessStatus := Inr (js ''granted'')\<rparr>) [] =
     (True, [GetMediaAccessStatus])"
proof -
  let ?a = "deniedWorld\<lparr>accessStatusAfter := Inr (js ''granted'')\<rparr>"
  let ?b = "deniedWorld\<lparr>probeCapture := Inl (Error ''capture failed'')\<rparr>"
  let ?c = "deniedWorld\<lparr>accessStatus := Inr (js ''granted'')\<rparr>"
  let ?d = "deniedWorld\<lparr>requireScreenshotDesktop := Inl (Error ''module not found'')\<rparr>"
  have a: "checkScreenCapturePermission (platform ?a) (accessStatus ?a) [] = (False, [GetMediaAccessStatus])"
    "\<not> isl (requireScreenshotDesktop ?a)" "\<not> isl (probeCapture ?a)" "\<not> isl (requireFs ?a)"
    "checkScreenCapturePermission (platform ?a) (accessStatusAfter ?a)
       [GetMediaAccessStatus, ScreenshotDesktop permissionTestFile, UnlinkSync permissionTestFile] =
     (True, [GetMediaAccessStatus, ScreenshotDesktop permissionTestFile, UnlinkSync permissionTestFile,
             GetMediaAccessStatus])"
    by (simp_all add: checkScreenCapturePermission_def deniedWorld_def darwin_def js_def)
  have b: "checkScreenCapturePermission (platform ?b) (accessStatus ?b) [] = (False, [GetMediaAccessStatus])"
    "\<not> isl (requireScreenshotDesktop ?b)" "isl (probeCapture ?b)"
    by (simp_all add: checkScreenCapturePermission_def deniedWorld_def darwin_def js_def)
  have c: "checkScreenCapturePermission (platform ?c) (accessStatus ?c) [] = (True, [GetMediaAccessStatus])"
    by (simp_all add: checkScreenCapturePermission_def deniedWorld_def darwin_def js_def)
  have d: "checkScreenCapturePermission (platform ?d) (accessStatus ?d) [] = (False, [GetMediaAccessStatus])"
    "isl (requireScreenshotDesktop ?d)"
    by (simp_all add: checkScreenCapturePermission_def deniedWorld_def darwin_def js_def)
  from C9_prompt_once[of ?a "[]"] a
  have "handlePermissionForContextCapture ?a [] =
     (True, [GetMediaAccessStatus, ScreenshotDesktop permissionTestFile, UnlinkSync permissionTestFile,
             GetMediaAccessStatus])"
    by simp
  moreover from C9_prompt_once[of ?b "[]"] b
  have "handlePermissionForContextCapture ?b [] = (False, [GetMediaAccessStatus, ScreenshotDesktop permissionTestFile])"
    by simp
  moreover from C9_prompt_once[of ?d "[]"] d
  have "handlePermissionForContextCapture ?d [] = (False, [GetMediaAccessStatus])"
    by simp
  moreover from C9_prompt_once[of ?c "[]"] c
  have "handlePermissionForContextCapture ?c [] = (True, [GetMediaAccessStatus])"
    by simp
  ultimately show ?thesis by blast
qed

text \<open>
  Claim C9 as stated fails on the second copy of the handler. On macOS with the
  permission denied at the first query and granted afterwards, the second copy makes the
  first query and nothing else, neither capture nor deletion nor second query, and
  returns false; the first copy, in the same world, probes and returns the true of the
  second query.
\<close>

theorem C9_counterexample:
  "handlePermissionForContextCapture_second (deniedWorld\<lparr>accessStatusAfter := Inr (js ''granted'')\<rparr>) [] =
     (False, [GetMediaAccessStatus]) \<and>
   handlePermissionForContextCapture (deniedWorld\<lparr>accessStatusAfter := Inr (js ''granted'')\<rparr>) [] =
     (True, [GetMediaAccessStatus, ScreenshotDesktop permissionTestFile, UnlinkSync permissionTestFile,
             GetMediaAccessStatus])"
  by (simp add: handlePermissionForContextCapture_second_def handlePermissionForContextCapture_def
      checkScreenCapturePermission_def deniedWorld_def darwin_def js_def)

section \<open>Claims about the pipeline\<close>

text \<open>
  Claim C1. Every run of \<open>captureAndAnalyzeContext\<close> returns a \<open>ContextData\<close> record and
  never throws. When the permission gate lets the run pass and the screenshot, the
  creation or set-up of the OCR worker (run only while the helper has no worker) or the
  recognition throws, the record returned is the \<open>Unknown\<close> record with every other field
  empty. The record returned is always one of three: the permission record, the
  \<open>Unknown\<close> record, or the record of a complete analysis.
\<close>

theorem C1_always_context_data:
  "(\<exists>contextData. fst (captureAndAnalyzeContext handlePermission w st) = Inr contextData) \<and>
   ((fst (handlePermission w (calls st)) \<or> platform w \<noteq> darwin) \<and>
    (isl (takeScreenshot w) \<or>
     (ocrWorker st = None \<and> (isl (createWorker w) \<or> isl (loadLanguage w) \<or> isl (initialize w))) \<or>
     isl (recognize w))
    \<longrightarrow> fst (captureAndAnalyzeContext handlePermission w st) =
          Inr \<lparr>software = js ''Unknown'', confidence = 0, panels = [],
               text_content = [], screenshot_path = [], ui_elements = []\<rparr>) \<and>
   (fst (captureAndAnalyzeContext handlePermission w st) = Inr permissionRequired \<or>
    fst (captureAndAnalyzeContext handlePermission w st) = Inr unknownContext \<or>
    (\<exists>screenshotPath text. takeScreenshot w = Inr screenshotPath \<and> recognize w = Inr text \<and>
       fst (captureAndAnalyzeContext handlePermission w st) =
         Inr \<lparr>software = software (detectCreativeSoftware text),
              confidence = confidence (detectCreativeSoftware text),
              panels = extractPanels text,
              text_content = take 500 text,
              screenshot_path = screenshotPath,
              ui_elements = extractUIElements text\<rparr>))"
proof (intro conjI impI)
  show "\<exists>contextData. fst (captureAndAnalyzeContext handlePermission w st) = Inr contextData"
    by (simp add: capture_of_tryBlock split: sum.splits)
next
  assume h: "(fst (handlePermission w (calls st)) \<or> platform w \<noteq> darwin) \<and>
    (isl (takeScreenshot w) \<or>
     (ocrWorker st = None \<and> (isl (createWorker w) \<or> isl (loadLanguage w) \<or> isl (initialize w))) \<or>
     isl (recognize w))"
  then have gate: "fst (handlePermission w (calls st)) \<or> platform w \<noteq> darwin"
    by blast
  from h have "isl (fst (tryBlock handlePermission w st))"
    using gate tryBlock_capture_fails[of handlePermission w st]
      tryBlock_init_fails[of handlePermission w st] tryBlock_recognize_fails[of handlePermission w st]
    by blast
  then show "fst (captureAndAnalyzeContext handlePermission w st) =
          Inr \<lparr>software = js ''Unknown'', confidence = 0, panels = [],
               text_content = [], screenshot_path = [], ui_elements = []\<rparr>"
    by (auto simp: capture_of_tryBlock unknownContext_def isl_def split: sum.splits)
next
  from tryBlock_outcomes[of handlePermission w st]
  show "fst (captureAndAnalyzeContext handlePermission w st) = Inr permissionRequired \<or>
    fst (captureAndAnalyzeContext handlePermission w st) = Inr unknownContext \<or>
    (\<exists>screenshotPath text. takeScreenshot w = Inr screenshotPath \<and> recognize w = Inr text \<and>
       fst (captureAndAnalyzeContext handlePermission w st) =
         Inr \<lparr>software = software (detectCreativeSoftware text),
              confidence = confidence (detectCreativeSoftware text),
              panels = extractPanels text,
              text_content = take 500 text,
              screenshot_path = screenshotPath,
              ui_elements = extractUIElements text\<rparr>)"
    unfolding capture_of_tryBlock by (auto simp: isl_def split: sum.splits)
qed

text \<open>
  Claim C1 on a run whose capture succeeds and whose recognition throws: the path of
  the screenshot is not in the record.
\<close>

theorem C1_always_context_data_witness:
  "fst (captureAndAnalyzeContext handlePermissionForContextCapture
          (linuxWorld\<lparr>recognize := Inl (Error ''recognize failed'')\<rparr>) freshState) =
     Inr \<lparr>software = js ''Unknown'', confidence = 0, panels = [],
          text_content = [], screenshot_path = [], ui_elements = []\<rparr>"
proof -
  let ?w = "linuxWorld\<lparr>recognize := Inl (Error ''recognize failed'')\<rparr>"
  have "platform ?w \<noteq> darwin"
    by (simp add: linuxWorld_def darwin_def js_def)
  moreover have "isl (recognize ?w)"
    by simp
  ultimately show ?thesis
    using C1_always_context_data[of handlePermissionForContextCapture ?w freshState] by blast
qed

text \<open>
  Claim C7. On a run that passes the permission gate and in which the screenshot, the
  OCR set-up and the recognition succeed, \<open>text_content\<close> is the first 500 code units of
  the recognized text as the engine returned it (all of it when it is shorter); the
  lower-cased copies are local to the classifier.
\<close>

theorem C7_text_content_prefix:
  assumes "fst (handlePermission w (calls st)) \<or> platform w \<noteq> darwin"
    and "takeScreenshot w = Inr screenshotPath"
    and "ocrWorker st = None \<longrightarrow> \<not> isl (createWorker w) \<and> \<not> isl (loadLanguage w) \<and> \<not> isl (initialize w)"
    and "recognize w = Inr text"
  shows "fst (captureAndAnalyzeContext handlePermission w st) =
     Inr \<lparr>software = software (detectCreativeSoftware text),
          confidence = confidence (detectCreativeSoftware text),
          panels = extractPanels text,
          text_content = take 500 text,
          screenshot_path = screenshotPath,
          ui_elements = extractUIElements text\<rparr>"
  using assms tryBlock_success[of handlePermission w st screenshotPath "text"]
  by (simp add: capture_of_tryBlock)

text \<open>
  Claim C7 on a recognized text of 613 code units: 500 are kept, upper-case letters as
  they were.
\<close>

theorem C7_text_content_prefix_witness:
  "text_content (projr (fst (captureAndAnalyzeContext handlePermissionForContextCapture linuxWorld freshState)))
     = js ''Premiere Pro '' @ replicate 487 0x41 \<and>
   length (text_content (projr (fst (captureAndAnalyzeContext handlePermissionForContextCapture linuxWorld freshState))))
     = 500"
proof -
  have g: "fst (handlePermissionForContextCapture linuxWorld (calls freshState)) \<or> platform linuxWorld \<noteq> darwin"
    by (simp add: linuxWorld_def darwin_def js_def)
  have s: "takeScreenshot linuxWorld = Inr (js ''/tmp/screenshot.png'')"
    by (simp add: linuxWorld_def)
  have o: "ocrWorker freshState = None \<longrightarrow>
      \<not> isl (createWorker linuxWorld) \<and> \<not> isl (loadLanguage linuxWorld) \<and> \<not> isl (initialize linuxWorld)"
    by (simp add: linuxWorld_def)
  have r: "recognize linuxWorld = Inr longText"
    by (simp add: linuxWorld_def)
  have t: "take 500 longText = js ''Premiere Pro '' @ replicate 487 0x41"
    by (simp add: longText_def js_def)
  from C7_text_content_prefix[of handlePermissionForContextCapture linuxWorld freshState
      "js ''/tmp/screenshot.png''" longText] g s o r
  have "text_content (projr (fst (captureAndAnalyzeContext handlePermissionForContextCapture linuxWorld freshState)))
      = take 500 longText"
    by simp
  with t show ?thesis
    by (simp add: js_def)
qed



end
